theory Spec2Isabelle
  imports Main "HOL-Library.Word"
begin

unbundle bit_operations_syntax

section \<open>JavaScript values used by the assistant orchestration module\<close>

text \<open>
  The module under verification is the assistant orchestration layer
  (\<^verbatim>\<open>src/unnamed/part_000\<close>, first document): conversation bookkeeping,
  transcript de-duplication, reply generation, the speech-synthesis promise chain and
  the macOS audio capture handler.

  A JavaScript string is modelled as a \<^typ>\<open>string\<close>; every \<^typ>\<open>char\<close> stands for
  one UTF-16 code unit in the range 0..255, and \<open>length\<close> is the string's
  \<^verbatim>\<open>.length\<close>. A value that may be \<^verbatim>\<open>null\<close>, \<^verbatim>\<open>undefined\<close> or of a
  non-string type is a \<^typ>\<open>string option\<close> with \<open>None\<close> for every such value.
\<close>

datatype error = RangeError | ReferenceError | GeneratorError

text \<open>White space as matched by \<^verbatim>\<open>\s\<close> and removed by \<^verbatim>\<open>String.prototype.trim\<close>,
  for code units below 256: TAB, LF, VT, FF, CR, SPACE and NO-BREAK SPACE.\<close>

definition isWhiteSpace :: "char \<Rightarrow> bool" where
  "isWhiteSpace c = (of_char c \<in> {9, 10, 11, 12, 13, 32, 160 :: nat})"

text \<open>\<^verbatim>\<open>s.trim()\<close>\<close>

definition trim :: "string \<Rightarrow> string" where
  "trim s = rev (dropWhile isWhiteSpace (rev (dropWhile isWhiteSpace s)))"

text \<open>\<^verbatim>\<open>s.replace(/\s+/g, ' ')\<close>: every maximal run of white space becomes one space.\<close>

function replaceWhitespaceRuns :: "string \<Rightarrow> string" where
  "replaceWhitespaceRuns [] = []"
| "replaceWhitespaceRuns (c # cs) =
     (if isWhiteSpace c then CHR '' '' # replaceWhitespaceRuns (dropWhile isWhiteSpace cs)
      else c # replaceWhitespaceRuns cs)"
  by pat_completeness auto
termination
  by (relation "measure length") (auto simp: less_Suc_eq_le length_dropWhile_le)

text \<open>JavaScript truthiness of a string-or-absent value: \<^verbatim>\<open>!v\<close> holds for
  \<^verbatim>\<open>null\<close>, \<^verbatim>\<open>undefined\<close> and the empty string.\<close>

definition falsy :: "string option \<Rightarrow> bool" where
  "falsy v = (case v of None \<Rightarrow> True | Some t \<Rightarrow> t = [])"

text \<open>\<^verbatim>\<open>Number.prototype.toString()\<close> of a non-negative integer: its decimal digits.\<close>

function toString_nat :: "nat \<Rightarrow> string" where
  "toString_nat n =
     (if n < 10 then [''0123456789'' ! n]
      else toString_nat (n div 10) @ [''0123456789'' ! (n mod 10)])"
  by pat_completeness auto
termination
  by (relation "measure id") auto

declare toString_nat.simps [simp del]

section \<open>Audio: stereo to mono, and the frame assembler\<close>

type_synonym byte = "8 word"

text \<open>\<^verbatim>\<open>buf.readInt16LE(off)\<close>: the two bytes at \<open>off\<close>, little endian, as a signed
  16-bit value; out of range throws.\<close>

definition readInt16LE :: "byte list \<Rightarrow> nat \<Rightarrow> error + int" where
  "readInt16LE buf off =
     (if off + 2 \<le> length buf
      then Inr (sint (word_cat (buf ! (off + 1)) (buf ! off) :: 16 word))
      else Inl RangeError)"

text \<open>\<^verbatim>\<open>buf.writeInt16LE(v, off)\<close>: stores the low byte, then the high byte; a value
  outside the signed 16-bit range or an offset out of range throws.\<close>

definition writeInt16LE :: "byte list \<Rightarrow> int \<Rightarrow> nat \<Rightarrow> error + byte list" where
  "writeInt16LE buf v off =
     (if off + 2 \<le> length buf \<and> - 32768 \<le> v \<and> v \<le> 32767
      then Inr (buf[off := word_of_int v, off + 1 := word_of_int (v div 256)])
      else Inl RangeError)"

text \<open>
  \<^verbatim>\<open>convertStereoToMono\<close> (lines 440-450). \<^verbatim>\<open>samples = stereoBuffer.length / 4\<close>
  is a floating-point quotient, so the loop test \<^verbatim>\<open>i < samples\<close> is
  \<open>4 * i < length\<close>; \<^verbatim>\<open>Buffer.alloc(samples * 2)\<close> truncates to
  \<open>length div 2\<close> zero bytes. Each iteration reads the left sample of pair \<open>i\<close> and
  writes it at byte \<open>2 * i\<close> of the mono buffer; the right sample is never read.
\<close>

function convertStereoToMono_loop :: "nat \<Rightarrow> byte list \<Rightarrow> byte list \<Rightarrow> error + byte list" where
  "convertStereoToMono_loop i stereoBuffer monoBuffer =
     (if 4 * i < length stereoBuffer then
        (case readInt16LE stereoBuffer (i * 4) of
           Inl e \<Rightarrow> Inl e
         | Inr leftSample \<Rightarrow>
             (case writeInt16LE monoBuffer leftSample (i * 2) of
                Inl e \<Rightarrow> Inl e
              | Inr monoBuffer' \<Rightarrow> convertStereoToMono_loop (i + 1) stereoBuffer monoBuffer'))
      else Inr monoBuffer)"
  by pat_completeness auto
termination
  by (relation "measure (\<lambda>(i, stereoBuffer, monoBuffer). length stereoBuffer - 4 * i)") auto

declare convertStereoToMono_loop.simps [simp del]

definition convertStereoToMono :: "byte list \<Rightarrow> error + byte list" where
  "convertStereoToMono stereoBuffer =
     convertStereoToMono_loop 0 stereoBuffer (replicate (length stereoBuffer div 2) 0)"

text \<open>The constants of \<^verbatim>\<open>startMacOSAudioCapture\<close> (lines 393-396, 417). The factor
  \<^verbatim>\<open>CHUNK_DURATION = 0.1\<close> is written as a division by 10: the product
  \<^verbatim>\<open>24000 * 2 * 2 * 0.1\<close> evaluates to exactly 9600 in double precision.\<close>

definition DEFAULT_SAMPLE_RATE :: nat where "DEFAULT_SAMPLE_RATE = 24000"
definition CHANNELS :: nat where "CHANNELS = 2"
definition BYTES_PER_SAMPLE :: nat where "BYTES_PER_SAMPLE = 2"
definition CHUNK_SIZE :: nat where
  "CHUNK_SIZE = (DEFAULT_SAMPLE_RATE * BYTES_PER_SAMPLE * CHANNELS) div 10"
definition maxBufferSize :: nat where
  "maxBufferSize = DEFAULT_SAMPLE_RATE * BYTES_PER_SAMPLE * 1"

text \<open>
  The \<^verbatim>\<open>while\<close> loop of the stdout \<^verbatim>\<open>data\<close> handler (lines 403-415): slice one
  frame off the front, keep the rest, down-mix the frame and hand it to the recognizer.
  The second component collects, in order, the mono frames passed to
  \<^verbatim>\<open>cartesiaSpeechService.enqueueBase64Audio\<close> (before their base64 encoding).
  \<^verbatim>\<open>ACTIVE_AUDIO_SOURCE\<close> is the constant \<^verbatim>\<open>'system'\<close>, so every frame is passed on.
  An exception of \<^verbatim>\<open>convertStereoToMono\<close> leaves the handler.
\<close>

function drainFrames :: "byte list \<Rightarrow> byte list list \<Rightarrow> error + (byte list \<times> byte list list)" where
  "drainFrames audioBuffer sent =
     (if CHUNK_SIZE \<le> length audioBuffer then
        (let chunk = take CHUNK_SIZE audioBuffer;
             audioBuffer' = drop CHUNK_SIZE audioBuffer
         in case (if CHANNELS = 2 then convertStereoToMono chunk else Inr chunk) of
              Inl e \<Rightarrow> Inl e
            | Inr monoChunk \<Rightarrow> drainFrames audioBuffer' (sent @ [monoChunk]))
      else Inr (audioBuffer, sent))"
  by pat_completeness auto
termination
  by (relation "measure (\<lambda>(audioBuffer, sent). length audioBuffer)")
     (auto simp: CHUNK_SIZE_def DEFAULT_SAMPLE_RATE_def BYTES_PER_SAMPLE_def CHANNELS_def)

declare drainFrames.simps [simp del]

text \<open>The whole \<^verbatim>\<open>data\<close> handler (lines 400-421): append the chunk, drain the frames,
  then the overflow guard \<^verbatim>\<open>audioBuffer.slice(-maxBufferSize)\<close>.\<close>

definition onData :: "byte list \<Rightarrow> byte list \<times> byte list list \<Rightarrow> error + (byte list \<times> byte list list)" where
  "onData data st =
     (case drainFrames (fst st @ data) (snd st) of
        Inl e \<Rightarrow> Inl e
      | Inr (audioBuffer, sent) \<Rightarrow>
          Inr (if maxBufferSize < length audioBuffer
               then (drop (length audioBuffer - maxBufferSize) audioBuffer, sent)
               else (audioBuffer, sent)))"

text \<open>The handler run on a sequence of stdout chunks; an exception stops the run.\<close>

fun onDataAll :: "byte list list \<Rightarrow> byte list \<times> byte list list \<Rightarrow> error + (byte list \<times> byte list list)" where
  "onDataAll [] st = Inr st"
| "onDataAll (data # rest) st =
     (case onData data st of Inl e \<Rightarrow> Inl e | Inr st' \<Rightarrow> onDataAll rest st')"

section \<open>The speech-synthesis promise chain\<close>

text \<open>
  \<^verbatim>\<open>ttsQueue\<close> is a promise built by \<^verbatim>\<open>queueTtsSynthesis\<close> (lines 242-260) from
  \<^verbatim>\<open>Promise.resolve()\<close> by \<^verbatim>\<open>.catch(() => {})\<close> and
  \<^verbatim>\<open>.then(async () => { try { await synthesizeSpeechToFile(trimmed) } catch (error) { console.error(.., error.message || error) } })\<close>.
  The chain is kept as the term the code builds.
\<close>

datatype promise =
    Promise_resolve
  | Catch promise
  | ThenSynthesize promise string

definition queueTtsSynthesis :: "string option \<Rightarrow> promise \<Rightarrow> promise" where
  "queueTtsSynthesis text queue =
     (let trimmed = (case text of Some t \<Rightarrow> trim t | None \<Rightarrow> [])
      in if length trimmed < 12 then queue
         else ThenSynthesize (Catch queue) trimmed)"

text \<open>
  How a chain settles. The synthesizer is external: its \<open>k\<close>-th call (counted from 0)
  resolves, rejects with an error object, or rejects with \<^verbatim>\<open>null\<close>/\<^verbatim>\<open>undefined\<close>;
  in the last case \<^verbatim>\<open>error.message\<close> throws inside the \<^verbatim>\<open>catch\<close> block and the
  task's own promise rejects.
  \<^item> \<^verbatim>\<open>p.catch(() => {})\<close> settles after \<open>p\<close> and is always fulfilled;
  \<^item> \<^verbatim>\<open>p.then(task)\<close> settles after \<open>p\<close>; it runs \<open>task\<close> only when \<open>p\<close> is
    fulfilled and otherwise passes the rejection on.
  The trace lists, in the order they happen, the start of each synthesis call and its end;
  the second component of \<open>settle\<close> says whether the promise ends fulfilled.
\<close>

datatype synth_outcome = Resolves | RejectsWithError | RejectsWithNullish

datatype tts_event = SynthesisStarted string | SynthesisEnded string synth_outcome

fun isStart :: "tts_event \<Rightarrow> bool" where
  "isStart (SynthesisStarted t) = True"
| "isStart (SynthesisEnded t r) = False"

fun settle :: "(nat \<Rightarrow> synth_outcome) \<Rightarrow> promise \<Rightarrow> tts_event list \<times> bool" where
  "settle synth Promise_resolve = ([], True)"
| "settle synth (Catch p) = (fst (settle synth p), True)"
| "settle synth (ThenSynthesize p trimmed) =
     (let (trace, fulfilled) = settle synth p
      in if fulfilled then
           (let outcome = synth (length (filter isStart trace))
            in (trace @ [SynthesisStarted trimmed, SynthesisEnded trimmed outcome],
                outcome \<noteq> RejectsWithNullish))
         else (trace, False))"

section \<open>Session state and conversation log\<close>

record turn =
  timestamp :: nat
  transcription :: string
  ai_response :: string

datatype role = User | Assistant

text \<open>The arguments of one call of \<^verbatim>\<open>cerebrasService.generateReply\<close>.\<close>

record request =
  contextText :: string
  roleHistory :: "(role \<times> string) list"
  systemPrompt :: string

text \<open>The messages of \<^verbatim>\<open>sendToRenderer(channel, data)\<close> that the modelled code sends.\<close>

datatype message =
    Update_status string
  | Update_response string
  | Save_conversation_turn "string option" turn "turn list"

text \<open>
  The module's variables (lines 22-38), followed by the part of the outside world the
  code reads or writes: the number of browser windows, the messages delivered to the
  first window, the calls made to the reply generator, and the clock
  (\<^verbatim>\<open>Date.now()\<close> returns \<open>clock k\<close> at its \<open>k\<close>-th read).
\<close>

record state =
  currentSessionId :: "string option"
  conversationHistory :: "turn list"
  customPrompt :: string
  googleSearchEnabled :: bool
  active :: bool
  lastProcessedTranscript :: string
  recentTranscripts :: "string list"
  ttsQueue :: promise
  windows :: nat
  delivered :: "message list"
  generatorCalls :: "request list"
  clock :: "nat \<Rightarrow> nat"
  clockReads :: nat

definition Date_now :: "state \<Rightarrow> nat \<times> state" where
  "Date_now s = (clock s (clockReads s), s\<lparr>clockReads := clockReads s + 1\<rparr>)"

text \<open>\<^verbatim>\<open>sendToRenderer\<close> (lines 68-73): delivered to the first window, if there is one.\<close>

definition sendToRenderer :: "message \<Rightarrow> state \<Rightarrow> state" where
  "sendToRenderer m s =
     (if 0 < windows s then s\<lparr>delivered := delivered s @ [m]\<rparr> else s)"

text \<open>\<^verbatim>\<open>initializeNewSession\<close> (lines 75-81).\<close>

definition initializeNewSession :: "state \<Rightarrow> state" where
  "initializeNewSession s =
     (let (now, s1) = Date_now s
      in s1\<lparr>currentSessionId := Some (toString_nat now),
             conversationHistory := [],
             lastProcessedTranscript := [],
             recentTranscripts := []\<rparr>)"

text \<open>\<^verbatim>\<open>saveConversationTurn\<close> (lines 83-102); both callers pass strings.\<close>

definition saveConversationTurn :: "string \<Rightarrow> string \<Rightarrow> state \<Rightarrow> state" where
  "saveConversationTurn transcription' aiResponse s =
     (let s1 = (if falsy (currentSessionId s) then initializeNewSession s else s);
          (now, s2) = Date_now s1;
          conversationTurn = \<lparr>timestamp = now,
                              transcription = trim transcription',
                              ai_response = trim aiResponse\<rparr>;
          s3 = s2\<lparr>conversationHistory := conversationHistory s2 @ [conversationTurn]\<rparr>
      in sendToRenderer
           (Save_conversation_turn (currentSessionId s3) conversationTurn (conversationHistory s3))
           s3)"

text \<open>\<^verbatim>\<open>buildCerebrasHistory\<close> (lines 137-148).\<close>

definition buildCerebrasHistory :: "state \<Rightarrow> (role \<times> string) list" where
  "buildCerebrasHistory s =
     concat (map (\<lambda>t. (if transcription t \<noteq> [] then [(User, transcription t)] else []) @
                       (if ai_response t \<noteq> [] then [(Assistant, ai_response t)] else []))
                 (conversationHistory s))"

section \<open>Reply generation\<close>

text \<open>
  The collaborators of \<^verbatim>\<open>respondWithCerebras\<close> that are not in the module.
  \<^item> \<^verbatim>\<open>getSystemPrompt\<close> is called at line 266 but the module does not import it
    (line 16); whether the identifier is bound is a parameter: \<open>None\<close> means it is
    unbound and the call throws a ReferenceError, \<open>Some f\<close> gives the prompt as a function
    of the custom prompt and the search flag.
  \<^item> \<^verbatim>\<open>cerebrasService.generateReply\<close>: for a request, \<open>Inl e\<close> means the awaited
    promise rejects, \<open>Inr None\<close> a \<^verbatim>\<open>null\<close>/\<^verbatim>\<open>undefined\<close> result, \<open>Inr (Some r)\<close> the
    reply string \<open>r\<close>.
\<close>

record env =
  getSystemPrompt :: "(string \<Rightarrow> bool \<Rightarrow> string) option"
  generateReply :: "request \<Rightarrow> error + string option"

text \<open>How the promise returned by an \<^verbatim>\<open>async\<close> function settles.\<close>

datatype settled = Fulfilled | Rejected error

text \<open>The part of \<^verbatim>\<open>respondWithCerebras\<close> after the \<^verbatim>\<open>await\<close> (lines 280-295),
  run on the state in which the call resumes.\<close>

definition respondWithCerebras_resume :: "error + string option \<Rightarrow> string \<Rightarrow> state \<Rightarrow> state" where
  "respondWithCerebras_resume outcome transcript s =
     (case outcome of
        Inl e \<Rightarrow> sendToRenderer (Update_status ''Listening...'') s
      | Inr reply' \<Rightarrow>
          if falsy reply' then sendToRenderer (Update_status ''Listening...'') s
          else
            (let reply = the reply';
                 s1 = sendToRenderer (Update_response reply) s;
                 s2 = saveConversationTurn transcript reply s1;
                 s3 = s2\<lparr>ttsQueue := queueTtsSynthesis (Some reply) (ttsQueue s2)\<rparr>
             in sendToRenderer (Update_status ''Listening...'') s3))"

text \<open>\<^verbatim>\<open>respondWithCerebras\<close> (lines 262-296), with no other handler running during the
  \<^verbatim>\<open>await\<close>. The result says how the returned promise settles.\<close>

definition respondWithCerebras :: "env \<Rightarrow> string \<Rightarrow> string option \<Rightarrow> state \<Rightarrow> settled \<times> state" where
  "respondWithCerebras e transcript searchSummary s =
     (let history = buildCerebrasHistory s
      in case getSystemPrompt e of
           None \<Rightarrow> (Rejected ReferenceError, s)
         | Some prompts \<Rightarrow>
             (let systemPrompt' = prompts (customPrompt s) (googleSearchEnabled s);
                  context = (if falsy searchSummary then transcript
                             else transcript @ [CHR 0x0A, CHR 0x0A] @ ''Web search context:''
                                  @ [CHR 0x0A] @ the searchSummary);
                  s1 = sendToRenderer (Update_status ''Responding...'') s;
                  req = \<lparr>contextText = context, roleHistory = history,
                         systemPrompt = systemPrompt'\<rparr>;
                  s2 = s1\<lparr>generatorCalls := generatorCalls s1 @ [req]\<rparr>
              in (Fulfilled, respondWithCerebras_resume (generateReply e req) transcript s2)))"

section \<open>The transcript gate\<close>

text \<open>\<^verbatim>\<open>recentTranscripts\<close> is a JavaScript \<^verbatim>\<open>Set\<close>: its elements in insertion order.\<close>

definition Set_add :: "string \<Rightarrow> string list \<Rightarrow> string list" where
  "Set_add x xs = (if x \<in> set xs then xs else xs @ [x])"

definition Set_delete :: "string \<Rightarrow> string list \<Rightarrow> string list" where
  "Set_delete x xs = removeAll x xs"

text \<open>Lines 316-322: \<^verbatim>\<open>values().next().value\<close> is the oldest element, or
  \<^verbatim>\<open>undefined\<close> for an empty set; \<^verbatim>\<open>if (first)\<close> tests its truthiness.\<close>

definition evictOldest :: "string list \<Rightarrow> string list" where
  "evictOldest recent =
     (if 12 < length recent then
        (case recent of
           [] \<Rightarrow> recent
         | first # rest \<Rightarrow> if first \<noteq> [] then Set_delete first recent else recent)
      else recent)"

text \<open>Line 303.\<close>

definition cleanTranscript :: "string option \<Rightarrow> string" where
  "cleanTranscript rawTranscript =
     (case rawTranscript of Some t \<Rightarrow> trim (replaceWhitespaceRuns t) | None \<Rightarrow> [])"

text \<open>\<^verbatim>\<open>handleCartesiaTranscript\<close> (lines 298-338). The \<^verbatim>\<open>options\<close> argument is never
  read. An exception of \<^verbatim>\<open>respondWithCerebras\<close> is caught and logged, so the handler's
  promise is always fulfilled and only the state is returned.\<close>

definition handleCartesiaTranscript :: "env \<Rightarrow> string option \<Rightarrow> state \<Rightarrow> state" where
  "handleCartesiaTranscript e rawTranscript s =
     (if \<not> active s then s
      else
        (let cleaned = cleanTranscript rawTranscript
         in if cleaned = [] \<or> length cleaned < 4 then s
            else if cleaned = lastProcessedTranscript s then s
            else if cleaned \<in> set (recentTranscripts s) then s
            else
              (let s1 = s\<lparr>recentTranscripts := evictOldest (recentTranscripts s)\<rparr>;
                   s2 = s1\<lparr>recentTranscripts := Set_add cleaned (recentTranscripts s1)\<rparr>;
                   s3 = s2\<lparr>lastProcessedTranscript := cleaned\<rparr>;
                   s4 = saveConversationTurn cleaned [] s3
               in snd (respondWithCerebras e cleaned None s4))))"

text \<open>A run of the handler over successive transcripts, each with the collaborators'
  behaviour during that call.\<close>

fun handleAll :: "(env \<times> string option) list \<Rightarrow> state \<Rightarrow> state" where
  "handleAll [] s = s"
| "handleAll ((e, rawTranscript) # rest) s = handleAll rest (handleCartesiaTranscript e rawTranscript s)"

section \<open>The manual text entry point\<close>

datatype ipc_result = Success | Failure string

text \<open>The \<^verbatim>\<open>send-text-message\<close> handler (lines 530-542).\<close>

definition send_text_message :: "env \<Rightarrow> string option \<Rightarrow> state \<Rightarrow> ipc_result \<times> state" where
  "send_text_message e text s =
     (if \<not> active s then (Failure ''No active session'', s)
      else if falsy text \<or> text = None \<or> length (trim (the text)) = 0
           then (Failure ''Invalid text message'', s)
      else (Success, handleCartesiaTranscript e text s))"

section \<open>Concrete states and collaborators\<close>

text \<open>The module's variables as they are initialised when the module is loaded
  (lines 22-38), with one browser window open and a clock that advances by one
  millisecond per read.\<close>

definition loadedState :: state where
  "loadedState =
     \<lparr>currentSessionId = None,
      conversationHistory = [],
      customPrompt = [],
      googleSearchEnabled = True,
      active = False,
      lastProcessedTranscript = [],
      recentTranscripts = [],
      ttsQueue = Promise_resolve,
      windows = 1,
      delivered = [],
      generatorCalls = [],
      clock = (\<lambda>k. 1762000000000 + k),
      clockReads = 0\<rparr>"

text \<open>The state once \<^verbatim>\<open>initialize-gemini\<close> has set \<^verbatim>\<open>sessionState.active\<close> and
  called \<^verbatim>\<open>initializeNewSession\<close> (lines 470-479).\<close>

definition activeSession :: state where
  "activeSession = initializeNewSession (loadedState\<lparr>active := True\<rparr>)"

text \<open>Collaborators: the identifier \<^verbatim>\<open>getSystemPrompt\<close> unbound; and, with it bound, a
  generator that answers every request with the given result.\<close>

definition unboundPrompt :: env where
  "unboundPrompt = \<lparr>getSystemPrompt = None, generateReply = (\<lambda>req. Inr None)\<rparr>"

definition generatorGiving :: "error + string option \<Rightarrow> env" where
  "generatorGiving outcome =
     \<lparr>getSystemPrompt = Some (\<lambda>custom search. ''You are a helpful assistant.''),
      generateReply = (\<lambda>req. outcome)\<rparr>"

text \<open>Thirteen distinct final transcripts.\<close>

definition thirteenTranscripts :: "string list" where
  "thirteenTranscripts =
     [''alfa'', ''bravo'', ''charlie'', ''delta'', ''echo'', ''foxtrot'', ''golf'',
      ''hotel'', ''india'', ''juliett'', ''kilo'', ''lima'', ''mike'']"

text \<open>The thirteen transcripts submitted one after the other as final transcripts.\<close>

definition thirteenSubmissions :: "(env \<times> string option) list" where
  "thirteenSubmissions = map (\<lambda>t. (unboundPrompt, Some t)) thirteenTranscripts"

section \<open>Reference descriptions used in the statements\<close>

text \<open>The guards of \<^verbatim>\<open>handleCartesiaTranscript\<close> (lines 299-314) taken together: the
  submission passes all of them.\<close>

definition accepted :: "string option \<Rightarrow> state \<Rightarrow> bool" where
  "accepted rawTranscript s =
     (active s \<and> 4 \<le> length (cleanTranscript rawTranscript)
      \<and> cleanTranscript rawTranscript \<noteq> lastProcessedTranscript s
      \<and> cleanTranscript rawTranscript \<notin> set (recentTranscripts s))"

text \<open>The shape of the de-duplication window in every state the handler produces.\<close>

definition windowOk :: "string list \<Rightarrow> bool" where
  "windowOk r = (length r \<le> 13 \<and> distinct r \<and> [] \<notin> set r)"


text \<open>The left channel of an interleaved stereo buffer: of every four bytes
  (left low, left high, right low, right high) the first two.\<close>

fun leftChannel :: "byte list \<Rightarrow> byte list" where
  "leftChannel (l0 # l1 # r0 # r1 # rest) = l0 # l1 # leftChannel rest"
| "leftChannel rest = []"

text \<open>The frames of a byte stream as the specification describes them: while at least \<open>n\<close>
  bytes are left, the first \<open>n\<close> bytes are one frame. \<open>residual\<close> is the unconsumed
  suffix.\<close>

function sliceFrames :: "nat \<Rightarrow> 'a list \<Rightarrow> 'a list list" where
  "sliceFrames n xs =
     (if 0 < n \<and> n \<le> length xs then take n xs # sliceFrames n (drop n xs) else [])"
  by pat_completeness auto
termination
  by (relation "measure (\<lambda>(n, xs). length xs)") auto

definition residual :: "nat \<Rightarrow> 'a list \<Rightarrow> 'a list" where
  "residual n xs = drop (n * (length xs div n)) xs"

declare sliceFrames.simps [simp del]

section \<open>The averaging down-mix of the second copy\<close>

text \<open>
  The repository holds a second copy of the module (the second document of
  \<^verbatim>\<open>src/vitest.config.js\<close>). Its \<^verbatim>\<open>convertStereoToMono\<close> (lines 565-577 there) reads both
  samples of a pair and writes
  \<^verbatim>\<open>Math.max(-32768, Math.min(32767, Math.round((leftSample + rightSample) / 2)))\<close>;
  \<^verbatim>\<open>Math.round\<close> rounds a half towards plus infinity, so on the integer sum \<open>n\<close> it is
  \<open>(n + 1) div 2\<close>.
\<close>

function convertStereoToMono_averaging_loop :: "nat \<Rightarrow> byte list \<Rightarrow> byte list \<Rightarrow> error + byte list" where
  "convertStereoToMono_averaging_loop i stereoBuffer monoBuffer =
     (if 4 * i < length stereoBuffer then
        (case readInt16LE stereoBuffer (i * 4) of
           Inl e \<Rightarrow> Inl e
         | Inr leftSample \<Rightarrow>
             (case readInt16LE stereoBuffer (i * 4 + 2) of
                Inl e \<Rightarrow> Inl e
              | Inr rightSample \<Rightarrow>
                  (let monoSample = max (- 32768) (min 32767 ((leftSample + rightSample + 1) div 2))
                   in case writeInt16LE monoBuffer monoSample (i * 2) of
                        Inl e \<Rightarrow> Inl e
                      | Inr monoBuffer' \<Rightarrow>
                          convertStereoToMono_averaging_loop (i + 1) stereoBuffer monoBuffer')))
      else Inr monoBuffer)"
  by pat_completeness auto
termination
  by (relation "measure (\<lambda>(i, stereoBuffer, monoBuffer). length stereoBuffer - 4 * i)") auto

declare convertStereoToMono_averaging_loop.simps [simp del]

definition convertStereoToMono_averaging :: "byte list \<Rightarrow> error + byte list" where
  "convertStereoToMono_averaging stereoBuffer =
     convertStereoToMono_averaging_loop 0 stereoBuffer (replicate (length stereoBuffer div 2) 0)"

section \<open>Runs of the synthesis queue\<close>

text \<open>All texts of a list enqueued one after the other.\<close>

fun enqueueAll :: "string option list \<Rightarrow> promise \<Rightarrow> promise" where
  "enqueueAll [] queue = queue"
| "enqueueAll (text # rest) queue = enqueueAll rest (queueTtsSynthesis text queue)"

text \<open>The texts that become tasks: the trimmed strings of at least 12 characters.\<close>

fun tasksOf :: "string option list \<Rightarrow> string list" where
  "tasksOf [] = []"
| "tasksOf (None # rest) = tasksOf rest"
| "tasksOf (Some t # rest) = (if length (trim t) < 12 then tasksOf rest else trim t # tasksOf rest)"

text \<open>Strictly sequential execution of tasks, the first being the \<open>k\<close>-th synthesis call:
  each task starts, ends with whatever the synthesizer does, and only then the next starts.\<close>

fun sequentially :: "(nat \<Rightarrow> synth_outcome) \<Rightarrow> nat \<Rightarrow> string list \<Rightarrow> tts_event list" where
  "sequentially synth k [] = []"
| "sequentially synth k (t # ts) =
     SynthesisStarted t # SynthesisEnded t (synth k) # sequentially synth (k + 1) ts"

text \<open>A synthesizer whose first call rejects with \<^verbatim>\<open>undefined\<close> and whose later calls
  resolve.\<close>

definition firstCallFails :: "nat \<Rightarrow> synth_outcome" where
  "firstCallFails k = (if k = 0 then RejectsWithNullish else Resolves)"

section \<open>Stereo to mono: what the loop computes\<close>

lemma word_cat_low: "(scast (word_cat (hi :: 8 word) (lo :: 8 word) :: 16 word) :: 8 word) = lo"
  by (rule bit_word_eqI) (auto simp: bit_simps)

lemma word_cat_high: "(word_of_int (sint (word_cat (hi :: 8 word) (lo :: 8 word) :: 16 word) div 256) :: 8 word) = hi"
proof -
  have "sint (word_cat hi lo :: 16 word) div 256 = sint (signed_drop_bit 8 (word_cat hi lo :: 16 word))"
    by (simp add: sint_signed_drop_bit_eq drop_bit_eq_div)
  moreover have "(scast (signed_drop_bit 8 (word_cat hi lo :: 16 word)) :: 8 word) = hi"
    by (rule bit_word_eqI) (auto simp: bit_simps)
  ultimately show ?thesis by simp
qed

lemma sint16_range: "- 32768 \<le> sint (w :: 16 word) \<and> sint w \<le> 32767"
  using sint_ge [of w] sint_lt [of w] by simp

lemma write_read_left:
  assumes "off + 2 \<le> length mbuf"
  shows "writeInt16LE mbuf (sint (word_cat hi lo :: 16 word)) off = Inr (mbuf[off := lo, off + 1 := hi])"
  using assms sint16_range [of "word_cat hi lo"]
  by (simp add: writeInt16LE_def word_cat_low word_cat_high)

lemma drop_four:
  assumes "n + 4 \<le> length xs"
  shows "drop n xs = xs ! n # xs ! (n + 1) # xs ! (n + 2) # xs ! (n + 3) # drop (n + 4) xs"
proof -
  have "drop n xs = xs ! n # drop (Suc n) xs"
    using assms by (simp add: Cons_nth_drop_Suc)
  also have "drop (Suc n) xs = xs ! (n + 1) # drop (Suc (Suc n)) xs"
    using assms by (simp add: Cons_nth_drop_Suc)
  also have "drop (Suc (Suc n)) xs = xs ! (n + 2) # drop (Suc (Suc (Suc n))) xs"
    using assms by (simp add: Cons_nth_drop_Suc)
  also have "drop (Suc (Suc (Suc n))) xs = xs ! (n + 3) # drop (n + 4) xs"
    using assms Cons_nth_drop_Suc [of "n + 3" xs] by (simp add: numeral_eq_Suc)
  finally show ?thesis .
qed

lemma take_two_update:
  assumes "n + 2 \<le> length xs"
  shows "take (n + 2) (xs[n := a, n + 1 := b]) = take n xs @ [a, b]"
proof -
  have "take (Suc (Suc n)) (xs[n := a, Suc n := b]) = take (Suc n) (xs[n := a, Suc n := b]) @ [b]"
    using assms by (simp add: take_Suc_conv_app_nth)
  also have "take (Suc n) (xs[n := a, Suc n := b]) = take n xs @ [a]"
    using assms by (simp add: take_Suc_conv_app_nth)
  finally show ?thesis by simp
qed

lemma convertStereoToMono_loop_left:
  "length stereo mod 4 = 0 \<Longrightarrow> length mbuf = length stereo div 2 \<Longrightarrow> 4 * i \<le> length stereo \<Longrightarrow>
   convertStereoToMono_loop i stereo mbuf = Inr (take (2 * i) mbuf @ leftChannel (drop (4 * i) stereo))"
proof (induction i stereo mbuf rule: convertStereoToMono_loop.induct)
  case (1 i stereo mbuf)
  show ?case
  proof (cases "4 * i < length stereo")
    case False
    with "1.prems" have "4 * i = length stereo" by simp
    with "1.prems" have "length mbuf = 2 * i" by simp
    with False show ?thesis
      by (subst convertStereoToMono_loop.simps) simp
  next
    case True
    with "1.prems" have four: "4 * i + 4 \<le> length stereo" by presburger
    with "1.prems" have two: "2 * i + 2 \<le> length mbuf" by simp
    define lo where "lo = stereo ! (4 * i)"
    define hi where "hi = stereo ! (4 * i + 1)"
    define mbuf' where "mbuf' = mbuf[2 * i := lo, 2 * i + 1 := hi]"
    have rd: "readInt16LE stereo (i * 4) = Inr (sint (word_cat hi lo :: 16 word))"
      using four by (simp add: readInt16LE_def lo_def hi_def mult.commute)
    have wr: "writeInt16LE mbuf (sint (word_cat hi lo :: 16 word)) (i * 2) = Inr mbuf'"
      using write_read_left [of "2 * i" mbuf hi lo] two by (simp add: mbuf'_def mult.commute)
    have "convertStereoToMono_loop (i + 1) stereo mbuf' =
          Inr (take (2 * (i + 1)) mbuf' @ leftChannel (drop (4 * (i + 1)) stereo))"
      using "1.IH" [OF True rd wr] "1.prems" four by (simp add: mbuf'_def)
    moreover have "take (2 * (i + 1)) mbuf' = take (2 * i) mbuf @ [lo, hi]"
      using take_two_update [OF two, of lo hi] by (simp add: mbuf'_def)
    moreover have "leftChannel (drop (4 * i) stereo) = lo # hi # leftChannel (drop (4 * (i + 1)) stereo)"
      using drop_four [OF four] by (simp add: lo_def hi_def add.commute)
    ultimately show ?thesis
      using True rd wr by (subst convertStereoToMono_loop.simps) simp
  qed
qed

lemma convertStereoToMono_left:
  "length stereo mod 4 = 0 \<Longrightarrow> convertStereoToMono stereo = Inr (leftChannel stereo)"
  using convertStereoToMono_loop_left [of stereo "replicate (length stereo div 2) 0" 0]
  by (simp add: convertStereoToMono_def)


section \<open>The frame assembler\<close>

lemma CHUNK_SIZE_value: "CHUNK_SIZE = 9600"
  by (simp add: CHUNK_SIZE_def DEFAULT_SAMPLE_RATE_def BYTES_PER_SAMPLE_def CHANNELS_def)

lemma maxBufferSize_value: "maxBufferSize = 48000"
  by (simp add: maxBufferSize_def DEFAULT_SAMPLE_RATE_def BYTES_PER_SAMPLE_def)

lemma residual_short: "length xs < n \<Longrightarrow> residual n xs = xs"
  by (simp add: residual_def)

lemma residual_drop:
  assumes "0 < n" "n \<le> length xs"
  shows "residual n (drop n xs) = residual n xs"
proof -
  have "length xs div n = Suc ((length xs - n) div n)"
    using assms by (simp add: le_div_geq)
  then show ?thesis
    by (simp add: residual_def add.commute)
qed

lemma residual_length: "0 < n \<Longrightarrow> length (residual n xs) < n"
proof -
  assume "0 < n"
  have "length (residual n xs) = length xs mod n"
    by (simp add: residual_def minus_mult_div_eq_mod)
  with \<open>0 < n\<close> show ?thesis by simp
qed

lemma sliceFrames_length: "0 < n \<Longrightarrow> length (sliceFrames n xs) = length xs div n"
proof (induction n xs rule: sliceFrames.induct)
  case (1 n xs)
  show ?case
  proof (cases "n \<le> length xs")
    case True
    with 1 show ?thesis
      by (subst sliceFrames.simps) (simp add: le_div_geq)
  next
    case False
    then show ?thesis
      by (subst sliceFrames.simps) simp
  qed
qed

lemma sliceFrames_sizes: "0 < n \<Longrightarrow> map length (sliceFrames n xs) = replicate (length xs div n) n"
proof (induction n xs rule: sliceFrames.induct)
  case (1 n xs)
  show ?case
  proof (cases "n \<le> length xs")
    case True
    with 1 show ?thesis
      by (subst sliceFrames.simps) (simp add: le_div_geq)
  next
    case False
    then show ?thesis
      by (subst sliceFrames.simps) simp
  qed
qed

lemma sliceFrames_concat: "0 < n \<Longrightarrow> concat (sliceFrames n xs) @ residual n xs = xs"
proof (induction n xs rule: sliceFrames.induct)
  case (1 n xs)
  show ?case
  proof (cases "n \<le> length xs")
    case True
    with 1 have "concat (sliceFrames n (drop n xs)) @ residual n xs = drop n xs"
      by (simp add: residual_drop)
    with True "1.prems" show ?thesis
      by (subst sliceFrames.simps) simp
  next
    case False
    then show ?thesis
      by (subst sliceFrames.simps) (simp add: residual_short)
  qed
qed

lemma sliceFrames_append:
  "0 < n \<Longrightarrow> sliceFrames n (xs @ ys) = sliceFrames n xs @ sliceFrames n (residual n xs @ ys)"
proof (induction n xs rule: sliceFrames.induct)
  case (1 n xs)
  show ?case
  proof (cases "n \<le> length xs")
    case True
    with 1 have "sliceFrames n (drop n xs @ ys) =
                 sliceFrames n (drop n xs) @ sliceFrames n (residual n xs @ ys)"
      by (simp add: residual_drop)
    with True "1.prems" show ?thesis
      by (subst sliceFrames.simps, subst (2) sliceFrames.simps) simp
  next
    case False
    then have "sliceFrames n xs = []"
      by (subst sliceFrames.simps) simp
    with False show ?thesis
      by (simp add: residual_short)
  qed
qed

lemma residual_append:
  "0 < n \<Longrightarrow> residual n (xs @ ys) = residual n (residual n xs @ ys)"
proof (induction n xs rule: sliceFrames.induct)
  case (1 n xs)
  show ?case
  proof (cases "n \<le> length xs")
    case True
    with 1 have "residual n (drop n xs @ ys) = residual n (residual n xs @ ys)"
      by (simp add: residual_drop)
    moreover have "residual n (drop n (xs @ ys)) = residual n (xs @ ys)"
      using True "1.prems" by (intro residual_drop) simp_all
    ultimately show ?thesis
      using True by simp
  next
    case False
    then show ?thesis
      by (simp add: residual_short)
  qed
qed

lemma drainFrames_slices:
  "drainFrames audioBuffer sent =
     Inr (residual CHUNK_SIZE audioBuffer, sent @ map leftChannel (sliceFrames CHUNK_SIZE audioBuffer))"
proof (induction audioBuffer sent rule: drainFrames.induct)
  case (1 audioBuffer sent)
  show ?case
  proof (cases "CHUNK_SIZE \<le> length audioBuffer")
    case False
    then show ?thesis
      by (subst drainFrames.simps, subst sliceFrames.simps) (simp add: residual_short)
  next
    case True
    have pos: "0 < CHUNK_SIZE" by (simp add: CHUNK_SIZE_value)
    have "length (take CHUNK_SIZE audioBuffer) mod 4 = 0"
      using True by (simp add: CHUNK_SIZE_value)
    then have conv: "convertStereoToMono (take CHUNK_SIZE audioBuffer) =
                     Inr (leftChannel (take CHUNK_SIZE audioBuffer))"
      by (rule convertStereoToMono_left)
    have "drainFrames (drop CHUNK_SIZE audioBuffer) (sent @ [leftChannel (take CHUNK_SIZE audioBuffer)]) =
          Inr (residual CHUNK_SIZE (drop CHUNK_SIZE audioBuffer),
               (sent @ [leftChannel (take CHUNK_SIZE audioBuffer)]) @
               map leftChannel (sliceFrames CHUNK_SIZE (drop CHUNK_SIZE audioBuffer)))"
      using "1.IH" [OF True refl refl, of "leftChannel (take CHUNK_SIZE audioBuffer)"] conv
      by (simp add: CHANNELS_def)
    then show ?thesis
      using True pos conv
      by (subst drainFrames.simps, subst sliceFrames.simps)
         (simp add: CHANNELS_def residual_drop Let_def)
  qed
qed

lemma onData_slices:
  "onData data (audioBuffer, sent) =
     Inr (residual CHUNK_SIZE (audioBuffer @ data),
          sent @ map leftChannel (sliceFrames CHUNK_SIZE (audioBuffer @ data)))"
proof -
  have "length (residual CHUNK_SIZE (audioBuffer @ data)) < CHUNK_SIZE"
    by (rule residual_length) (simp add: CHUNK_SIZE_value)
  then have "\<not> maxBufferSize < length (residual CHUNK_SIZE (audioBuffer @ data))"
    by (simp add: CHUNK_SIZE_value maxBufferSize_value)
  then show ?thesis
    by (simp add: onData_def drainFrames_slices)
qed

lemma onDataAll_slices:
  "onDataAll chunks (residual CHUNK_SIZE p, map leftChannel (sliceFrames CHUNK_SIZE p)) =
     Inr (residual CHUNK_SIZE (p @ concat chunks),
          map leftChannel (sliceFrames CHUNK_SIZE (p @ concat chunks)))"
proof (induction chunks arbitrary: p)
  case Nil
  show ?case by simp
next
  case (Cons data rest)
  have pos: "0 < CHUNK_SIZE" by (simp add: CHUNK_SIZE_value)
  have "onData data (residual CHUNK_SIZE p, map leftChannel (sliceFrames CHUNK_SIZE p)) =
        Inr (residual CHUNK_SIZE (p @ data), map leftChannel (sliceFrames CHUNK_SIZE (p @ data)))"
    using pos by (simp add: onData_slices residual_append [symmetric] sliceFrames_append [of _ p data])
  then show ?case
    using Cons.IH [of "p @ data"] by simp
qed

text \<open>
  C6. Whatever the chunking of the subprocess output, the \<^verbatim>\<open>data\<close> handler started on
  an empty buffer never throws, hands the recognizer one mono frame per full
  \<open>CHUNK_SIZE\<close>-byte slice of the concatenated input, in input order, that is
  \<open>floor (totalBytes / CHUNK_SIZE)\<close> frames each cut from exactly \<open>CHUNK_SIZE\<close> bytes,
  and keeps as its buffer the unconsumed suffix: slices followed by the buffer give back the
  input. The overflow guard never fires, since the buffer left by the loop is shorter than
  one frame.
\<close>

theorem C6_frames_floor:
  "onDataAll chunks ([], []) =
     Inr (residual CHUNK_SIZE (concat chunks),
          map leftChannel (sliceFrames CHUNK_SIZE (concat chunks)))
   \<and> length (sliceFrames CHUNK_SIZE (concat chunks)) = length (concat chunks) div CHUNK_SIZE
   \<and> map length (sliceFrames CHUNK_SIZE (concat chunks)) =
       replicate (length (concat chunks) div CHUNK_SIZE) CHUNK_SIZE
   \<and> concat (sliceFrames CHUNK_SIZE (concat chunks)) @ residual CHUNK_SIZE (concat chunks) =
       concat chunks"
proof -
  have pos: "0 < CHUNK_SIZE" by (simp add: CHUNK_SIZE_value)
  have "residual CHUNK_SIZE ([] :: byte list) = []"
    by (simp add: residual_def)
  moreover have "sliceFrames CHUNK_SIZE ([] :: byte list) = []"
    using pos by (subst sliceFrames.simps) simp
  ultimately have "onDataAll chunks ([], []) =
     Inr (residual CHUNK_SIZE (concat chunks),
          map leftChannel (sliceFrames CHUNK_SIZE (concat chunks)))"
    using onDataAll_slices [of chunks "[]"] by simp
  then show ?thesis
    using pos by (simp add: sliceFrames_length sliceFrames_sizes sliceFrames_concat)
qed


section \<open>Trimming\<close>






section \<open>Saving a conversation turn\<close>

lemma toString_nat_nonempty: "toString_nat n \<noteq> []"
  by (subst toString_nat.simps) simp

lemmas state_defs = saveConversationTurn_def initializeNewSession_def Date_now_def
  sendToRenderer_def Let_def

lemma save_session: "\<not> falsy (currentSessionId (saveConversationTurn t r s))"
  by (simp add: state_defs falsy_def toString_nat_nonempty)

lemma save_kept:
  "active (saveConversationTurn t r s) = active s"
  "windows (saveConversationTurn t r s) = windows s"
  "ttsQueue (saveConversationTurn t r s) = ttsQueue s"
  "generatorCalls (saveConversationTurn t r s) = generatorCalls s"
  "customPrompt (saveConversationTurn t r s) = customPrompt s"
  "googleSearchEnabled (saveConversationTurn t r s) = googleSearchEnabled s"
  "clock (saveConversationTurn t r s) = clock s"
  by (simp_all add: state_defs)

lemma save_existing:
  assumes "\<not> falsy (currentSessionId s)"
  shows "currentSessionId (saveConversationTurn t r s) = currentSessionId s"
    and "lastProcessedTranscript (saveConversationTurn t r s) = lastProcessedTranscript s"
    and "recentTranscripts (saveConversationTurn t r s) = recentTranscripts s"
    and "clockReads (saveConversationTurn t r s) = clockReads s + 1"
    and "conversationHistory (saveConversationTurn t r s) =
           conversationHistory s @
           [\<lparr>timestamp = clock s (clockReads s), transcription = trim t, ai_response = trim r\<rparr>]"
  using assms by (simp_all add: state_defs)

lemma save_fresh:
  assumes "falsy (currentSessionId s)"
  shows "currentSessionId (saveConversationTurn t r s) = Some (toString_nat (clock s (clockReads s)))"
    and "lastProcessedTranscript (saveConversationTurn t r s) = []"
    and "recentTranscripts (saveConversationTurn t r s) = []"
    and "clockReads (saveConversationTurn t r s) = clockReads s + 2"
    and "conversationHistory (saveConversationTurn t r s) =
           [\<lparr>timestamp = clock s (clockReads s + 1), transcription = trim t, ai_response = trim r\<rparr>]"
  using assms by (simp_all add: state_defs)

lemma save_delivered:
  "delivered (saveConversationTurn t r s) =
     (if 0 < windows s
      then delivered s @
           [Save_conversation_turn (currentSessionId (saveConversationTurn t r s))
              \<lparr>timestamp = clock s (clockReads s + (if falsy (currentSessionId s) then 1 else 0)),
               transcription = trim t, ai_response = trim r\<rparr>
              (conversationHistory (saveConversationTurn t r s))]
      else delivered s)"
  by (simp add: state_defs)

lemma sessionId_text: "toString_nat 1762000000000 = ''1762000000000''"
  by (simp add: toString_nat.simps)



lemma activeSession_fields:
  "currentSessionId activeSession = Some ''1762000000000''"
  "conversationHistory activeSession = []"
  "customPrompt activeSession = []"
  "googleSearchEnabled activeSession"
  "active activeSession"
  "lastProcessedTranscript activeSession = []"
  "recentTranscripts activeSession = []"
  "ttsQueue activeSession = Promise_resolve"
  "windows activeSession = 1"
  "delivered activeSession = []"
  "generatorCalls activeSession = []"
  "clock activeSession k = 1762000000000 + k"
  "clockReads activeSession = 1"
  by (simp_all add: activeSession_def initializeNewSession_def Date_now_def loadedState_def
        sessionId_text)


text \<open>
  C9. \<^verbatim>\<open>saveConversationTurn\<close> called without a session (session id \<^verbatim>\<open>null\<close> or empty)
  first runs \<^verbatim>\<open>initializeNewSession\<close>: the session id becomes the clock's decimal text, the
  history is emptied and the de-duplication state is cleared. In every case the turn is
  appended under a session id that is neither \<^verbatim>\<open>null\<close> nor empty, and the
  \<^verbatim>\<open>save-conversation-turn\<close> message, sent when a window exists, carries that id, the new
  turn and the full history ending with it.
\<close>

theorem C9_saved_turn_has_session:
  "let s' = saveConversationTurn t r s;
       fresh = falsy (currentSessionId s);
       newTurn = \<lparr>timestamp = clock s (clockReads s + (if fresh then 1 else 0)),
                  transcription = trim t, ai_response = trim r\<rparr>
   in \<not> falsy (currentSessionId s')
      \<and> (fresh \<longrightarrow> currentSessionId s' = Some (toString_nat (clock s (clockReads s)))
                   \<and> conversationHistory s' = [newTurn]
                   \<and> lastProcessedTranscript s' = []
                   \<and> recentTranscripts s' = [])
      \<and> (\<not> fresh \<longrightarrow> currentSessionId s' = currentSessionId s
                   \<and> conversationHistory s' = conversationHistory s @ [newTurn])
      \<and> (0 < windows s \<longrightarrow>
            delivered s' = delivered s @
              [Save_conversation_turn (currentSessionId s') newTurn (conversationHistory s')])
      \<and> (windows s = 0 \<longrightarrow> delivered s' = delivered s)"
  by (simp add: Let_def save_session save_existing save_fresh save_delivered)


theorem C9_saved_turn_has_session_witness:
  "currentSessionId (saveConversationTurn ''hello world'' [] loadedState) = Some ''1762000000000''
   \<and> conversationHistory (saveConversationTurn ''hello world'' [] loadedState) =
       [\<lparr>timestamp = 1762000000001, transcription = ''hello world'', ai_response = []\<rparr>]
   \<and> delivered (saveConversationTurn ''hello world'' [] loadedState) =
       [Save_conversation_turn (Some ''1762000000000'')
          \<lparr>timestamp = 1762000000001, transcription = ''hello world'', ai_response = []\<rparr>
          [\<lparr>timestamp = 1762000000001, transcription = ''hello world'', ai_response = []\<rparr>]]"
proof -
  have fresh: "falsy (currentSessionId loadedState)"
    by (simp add: loadedState_def falsy_def)
  have win: "0 < windows loadedState"
    by (simp add: loadedState_def)
  have tr: "trim ''hello world'' = ''hello world''" "trim [] = []"
    by (simp_all add: trim_def isWhiteSpace_def)
  have clk: "clock loadedState (clockReads loadedState) = 1762000000000"
            "clock loadedState (Suc (clockReads loadedState)) = 1762000000001"
            "delivered loadedState = []"
    by (simp_all add: loadedState_def del: One_nat_def add_Suc_right)
  show ?thesis
    using C9_saved_turn_has_session [of "''hello world''" "[]" loadedState] fresh win
    by (simp add: Let_def tr clk sessionId_text)
qed

section \<open>Reply generation without a reply\<close>

lemma send_kept:
  "currentSessionId (sendToRenderer m s) = currentSessionId s"
  "conversationHistory (sendToRenderer m s) = conversationHistory s"
  "customPrompt (sendToRenderer m s) = customPrompt s"
  "googleSearchEnabled (sendToRenderer m s) = googleSearchEnabled s"
  "active (sendToRenderer m s) = active s"
  "lastProcessedTranscript (sendToRenderer m s) = lastProcessedTranscript s"
  "recentTranscripts (sendToRenderer m s) = recentTranscripts s"
  "ttsQueue (sendToRenderer m s) = ttsQueue s"
  "windows (sendToRenderer m s) = windows s"
  "generatorCalls (sendToRenderer m s) = generatorCalls s"
  "clock (sendToRenderer m s) = clock s"
  "clockReads (sendToRenderer m s) = clockReads s"
  by (simp_all add: sendToRenderer_def)

lemma send_delivered:
  "delivered (sendToRenderer m s) = (if 0 < windows s then delivered s @ [m] else delivered s)"
  by (simp add: sendToRenderer_def)

text \<open>No reply: the code after the await only reports the status.\<close>

lemma resume_no_reply:
  assumes "outcome = Inl err \<or> outcome = Inr None \<or> outcome = Inr (Some [])"
  shows "respondWithCerebras_resume outcome transcript s =
           sendToRenderer (Update_status ''Listening...'') s"
  using assms by (auto simp: respondWithCerebras_resume_def falsy_def)


lemma respond_bound:
  assumes "getSystemPrompt e = Some p"
  shows "respondWithCerebras e transcript summary s =
           (Fulfilled,
            respondWithCerebras_resume
              (generateReply e
                 \<lparr>contextText = (if falsy summary then transcript
                                  else transcript @ [CHR 0x0A, CHR 0x0A] @ ''Web search context:''
                                       @ [CHR 0x0A] @ the summary),
                  roleHistory = buildCerebrasHistory s,
                  systemPrompt = p (customPrompt s) (googleSearchEnabled s)\<rparr>)
              transcript
              ((sendToRenderer (Update_status ''Responding...'') s)
                 \<lparr>generatorCalls := generatorCalls s @
                    [\<lparr>contextText = (if falsy summary then transcript
                                  else transcript @ [CHR 0x0A, CHR 0x0A] @ ''Web search context:''
                                       @ [CHR 0x0A] @ the summary),
                      roleHistory = buildCerebrasHistory s,
                      systemPrompt = p (customPrompt s) (googleSearchEnabled s)\<rparr>]\<rparr>))"
  using assms by (simp add: respondWithCerebras_def Let_def send_kept)

lemma respond_unbound:
  assumes "getSystemPrompt e = None"
  shows "respondWithCerebras e transcript summary s = (Rejected ReferenceError, s)"
  using assms by (simp add: respondWithCerebras_def)


text \<open>
  C8. When the reply generator is reached (the prompt builder is bound) and it rejects, or
  returns \<^verbatim>\<open>null\<close>/\<^verbatim>\<open>undefined\<close> or the empty string, \<^verbatim>\<open>respondWithCerebras\<close>
  resolves having only reported the status: the conversation log, the session id, the
  synthesis queue and the de-duplication state are what they were before the call, and the
  messages sent are \<open>Responding...\<close> followed by \<open>Listening...\<close>.
\<close>

theorem C8_no_reply_no_turn:
  assumes "getSystemPrompt e = Some p"
    and "\<forall>req. generateReply e req = outcome"
    and "outcome = Inl err \<or> outcome = Inr None \<or> outcome = Inr (Some [])"
  shows "let result = respondWithCerebras e transcript summary s; s' = snd result
         in fst result = Fulfilled
            \<and> conversationHistory s' = conversationHistory s
            \<and> currentSessionId s' = currentSessionId s
            \<and> ttsQueue s' = ttsQueue s
            \<and> lastProcessedTranscript s' = lastProcessedTranscript s
            \<and> recentTranscripts s' = recentTranscripts s
            \<and> length (generatorCalls s') = length (generatorCalls s) + 1
            \<and> delivered s' =
                (if 0 < windows s
                 then delivered s @ [Update_status ''Responding...'', Update_status ''Listening...'']
                 else delivered s)"
proof -
  have "respondWithCerebras_resume (generateReply e req) transcript t =
        sendToRenderer (Update_status ''Listening...'') t" for req t
    using assms(2,3) resume_no_reply [of outcome err transcript t] by simp
  then show ?thesis
    using assms(1) by (simp add: respond_bound Let_def send_kept send_delivered)
qed

theorem C8_no_reply_no_turn_witness:
  "fst (respondWithCerebras (generatorGiving (Inr None)) ''What is the capital of France?'' None
          activeSession) = Fulfilled
   \<and> conversationHistory (snd (respondWithCerebras (generatorGiving (Inr None))
          ''What is the capital of France?'' None activeSession)) = []
   \<and> ttsQueue (snd (respondWithCerebras (generatorGiving (Inr None))
          ''What is the capital of France?'' None activeSession)) = Promise_resolve
   \<and> delivered (snd (respondWithCerebras (generatorGiving (Inr None))
          ''What is the capital of France?'' None activeSession)) =
       [Update_status ''Responding...'', Update_status ''Listening...'']"
proof -
  have bound: "getSystemPrompt (generatorGiving (Inr None)) =
                 Some (\<lambda>custom search. ''You are a helpful assistant.'')"
    by (simp add: generatorGiving_def)
  have gen: "\<forall>req. generateReply (generatorGiving (Inr None)) req = Inr None"
    by (simp add: generatorGiving_def)
  show ?thesis
    using C8_no_reply_no_turn [OF bound gen, of GeneratorError
            "''What is the capital of France?''" None activeSession]
    by (simp add: Let_def activeSession_fields)
qed

section \<open>The transcript gate: preserved fields\<close>

lemma save_recent_cases:
  "recentTranscripts (saveConversationTurn t r s) = recentTranscripts s
   \<or> recentTranscripts (saveConversationTurn t r s) = []"
  by (cases "falsy (currentSessionId s)") (simp_all add: save_fresh save_existing)

lemma resume_kept:
  "active (respondWithCerebras_resume outcome t s) = active s"
  "windows (respondWithCerebras_resume outcome t s) = windows s"
  by (auto simp: respondWithCerebras_resume_def Let_def send_kept save_kept split: sum.splits)

lemma resume_session:
  "\<not> falsy (currentSessionId s) \<Longrightarrow>
     currentSessionId (respondWithCerebras_resume outcome t s) = currentSessionId s
     \<and> lastProcessedTranscript (respondWithCerebras_resume outcome t s) = lastProcessedTranscript s
     \<and> recentTranscripts (respondWithCerebras_resume outcome t s) = recentTranscripts s"
  by (auto simp: respondWithCerebras_resume_def Let_def send_kept save_existing split: sum.splits)

lemma resume_recent_cases:
  "recentTranscripts (respondWithCerebras_resume outcome t s) = recentTranscripts s
   \<or> recentTranscripts (respondWithCerebras_resume outcome t s) = []"
  using save_recent_cases [of t "the (projr outcome)" "sendToRenderer (Update_response (the (projr outcome))) s"]
  by (auto simp: respondWithCerebras_resume_def Let_def send_kept split: sum.splits)

lemma respond_kept:
  "active (snd (respondWithCerebras e t summary s)) = active s"
  "windows (snd (respondWithCerebras e t summary s)) = windows s"
  by (cases "getSystemPrompt e"; simp add: respond_unbound respond_bound resume_kept send_kept)+

lemma respond_session:
  assumes "\<not> falsy (currentSessionId s)"
  shows "currentSessionId (snd (respondWithCerebras e t summary s)) = currentSessionId s
     \<and> lastProcessedTranscript (snd (respondWithCerebras e t summary s)) = lastProcessedTranscript s
     \<and> recentTranscripts (snd (respondWithCerebras e t summary s)) = recentTranscripts s"
proof (cases "getSystemPrompt e")
  case None
  then show ?thesis by (simp add: respond_unbound)
next
  case (Some p)
  show ?thesis
    using assms by (simp add: respond_bound [OF Some] resume_session send_kept)
qed

lemma respond_recent_cases:
  "recentTranscripts (snd (respondWithCerebras e t summary s)) = recentTranscripts s
   \<or> recentTranscripts (snd (respondWithCerebras e t summary s)) = []"
proof (cases "getSystemPrompt e")
  case None
  then show ?thesis by (simp add: respond_unbound)
next
  case (Some p)
  show ?thesis
    using resume_recent_cases [of _ t "(sendToRenderer (Update_status ''Responding...'') s)
             \<lparr>generatorCalls := generatorCalls s @ [_]\<rparr>"]
    by (simp add: respond_bound [OF Some] send_kept)
qed

lemma handle_dropped: "\<not> accepted raw s \<Longrightarrow> handleCartesiaTranscript e raw s = s"
  by (auto simp: accepted_def handleCartesiaTranscript_def Let_def)

lemma handle_accepted:
  "accepted raw s \<Longrightarrow>
     handleCartesiaTranscript e raw s =
       snd (respondWithCerebras e (cleanTranscript raw) None
              (saveConversationTurn (cleanTranscript raw) []
                 (s\<lparr>recentTranscripts :=
                       Set_add (cleanTranscript raw) (evictOldest (recentTranscripts s)),
                    lastProcessedTranscript := cleanTranscript raw\<rparr>)))"
  by (auto simp: accepted_def handleCartesiaTranscript_def Let_def)

lemma handle_active: "active (handleCartesiaTranscript e raw s) = active s"
  by (cases "accepted raw s") (simp_all add: handle_dropped handle_accepted respond_kept save_kept)

lemma handle_last:
  assumes "accepted raw s" "\<not> falsy (currentSessionId s)"
  shows "lastProcessedTranscript (handleCartesiaTranscript e raw s) = cleanTranscript raw"
    and "recentTranscripts (handleCartesiaTranscript e raw s) =
           Set_add (cleanTranscript raw) (evictOldest (recentTranscripts s))"
    and "currentSessionId (handleCartesiaTranscript e raw s) = currentSessionId s"
  using assms by (simp_all add: handle_accepted respond_session save_session save_existing)


section \<open>The de-duplication window\<close>

lemma evictOldest_small: "length r \<le> 12 \<Longrightarrow> evictOldest r = r"
  by (simp add: evictOldest_def)

lemma evictOldest_full:
  assumes "12 < length r" "distinct r" "[] \<notin> set r"
  shows "evictOldest r = tl r"
proof (cases r)
  case Nil
  with assms show ?thesis by simp
next
  case (Cons first rest)
  with assms have "first \<noteq> []" "first \<notin> set rest" by auto
  with Cons assms(1) show ?thesis
    by (simp add: evictOldest_def Set_delete_def)
qed

lemma evictOldest_subset: "set (evictOldest r) \<subseteq> set r"
  by (auto simp: evictOldest_def Set_delete_def split: list.splits)

lemma evictOldest_distinct: "distinct r \<Longrightarrow> distinct (evictOldest r)"
  by (auto simp: evictOldest_def Set_delete_def distinct_removeAll split: list.splits)

lemma evictOldest_length:
  assumes "length r \<le> 13" "distinct r" "[] \<notin> set r"
  shows "length (evictOldest r) \<le> 12"
proof (cases "12 < length r")
  case True
  with assms show ?thesis by (simp add: evictOldest_full)
next
  case False
  then show ?thesis by (simp add: evictOldest_small)
qed

lemma windowOk_insert:
  assumes "windowOk r" "c \<noteq> []" "c \<notin> set r"
  shows "windowOk (Set_add c (evictOldest r))"
proof -
  have "c \<notin> set (evictOldest r)"
    using assms(3) evictOldest_subset [of r] by auto
  moreover have "length (evictOldest r) \<le> 12"
    using assms(1) by (simp add: windowOk_def evictOldest_length)
  moreover have "distinct (evictOldest r)" "[] \<notin> set (evictOldest r)"
    using assms(1) evictOldest_subset [of r] by (auto simp: windowOk_def evictOldest_distinct)
  ultimately show ?thesis
    using assms(2) by (simp add: windowOk_def Set_add_def)
qed

lemma windowOk_Nil: "windowOk []"
  by (simp add: windowOk_def)

lemma handle_windowOk:
  assumes "windowOk (recentTranscripts s)"
  shows "windowOk (recentTranscripts (handleCartesiaTranscript e raw s))"
proof (cases "accepted raw s")
  case False
  with assms show ?thesis by (simp add: handle_dropped)
next
  case True
  define c where "c = cleanTranscript raw"
  define s3 where "s3 = s\<lparr>recentTranscripts := Set_add c (evictOldest (recentTranscripts s)),
                           lastProcessedTranscript := c\<rparr>"
  define s4 where "s4 = saveConversationTurn c [] s3"
  have "c \<noteq> []" "c \<notin> set (recentTranscripts s)"
    using True by (auto simp: accepted_def c_def)
  with assms have "windowOk (recentTranscripts s3)"
    by (simp add: s3_def windowOk_insert)
  then have "windowOk (recentTranscripts s4)"
    using save_recent_cases [of c "[]" s3] by (auto simp: s4_def windowOk_Nil)
  then have "windowOk (recentTranscripts (snd (respondWithCerebras e c None s4)))"
    using respond_recent_cases [of e c None s4] by (auto simp: windowOk_Nil)
  then show ?thesis
    using True by (simp add: handle_accepted c_def s3_def s4_def)
qed

lemma handleAll_windowOk:
  "windowOk (recentTranscripts s) \<Longrightarrow> windowOk (recentTranscripts (handleAll subs s))"
proof (induction subs arbitrary: s)
  case Nil
  then show ?case by simp
next
  case (Cons sub rest)
  obtain e raw where sub: "sub = (e, raw)" by (cases sub)
  show ?case
    using Cons.IH [of "handleCartesiaTranscript e raw s"] Cons.prems
    by (simp add: sub handle_windowOk)
qed

lemma handle_inserts:
  assumes "accepted raw s" "\<not> falsy (currentSessionId s)"
    and "distinct (recentTranscripts s)" "[] \<notin> set (recentTranscripts s)"
  shows "recentTranscripts (handleCartesiaTranscript e raw s) =
           (if 12 < length (recentTranscripts s) then tl (recentTranscripts s)
            else recentTranscripts s) @ [cleanTranscript raw]"
proof -
  have notin: "cleanTranscript raw \<notin> set (recentTranscripts s)"
    using assms(1) by (simp add: accepted_def)
  then have "cleanTranscript raw \<notin> set (evictOldest (recentTranscripts s))"
    using evictOldest_subset [of "recentTranscripts s"] by auto
  then show ?thesis
    using assms by (simp add: handle_last Set_add_def evictOldest_full evictOldest_small)
qed

text \<open>A run of distinct, already clean transcripts that fits into the window.\<close>

lemma handleAll_fills:
  assumes "active s" "\<not> falsy (currentSessionId s)"
    and "distinct (recentTranscripts s @ ts)" "[] \<notin> set (recentTranscripts s)"
    and "length (recentTranscripts s) + length ts \<le> 13"
    and "\<forall>t \<in> set ts. cleanTranscript (Some t) = t \<and> 4 \<le> length t"
    and "ts \<noteq> [] \<longrightarrow> lastProcessedTranscript s \<notin> set ts"
    and "getSystemPrompt e = None"
  shows "recentTranscripts (handleAll (map (\<lambda>t. (e, Some t)) ts) s) = recentTranscripts s @ ts
         \<and> active (handleAll (map (\<lambda>t. (e, Some t)) ts) s)
         \<and> currentSessionId (handleAll (map (\<lambda>t. (e, Some t)) ts) s) = currentSessionId s
         \<and> lastProcessedTranscript (handleAll (map (\<lambda>t. (e, Some t)) ts) s) =
             (if ts = [] then lastProcessedTranscript s else last ts)"
  using assms
proof (induction ts arbitrary: s)
  case Nil
  then show ?case by simp
next
  case (Cons t ts)
  define s' where "s' = handleCartesiaTranscript e (Some t) s"
  have clean: "cleanTranscript (Some t) = t" "4 \<le> length t"
    using Cons.prems(6) by auto
  have acc: "accepted (Some t) s"
    using Cons.prems(1,3,7) clean by (auto simp: accepted_def)
  have small: "length (recentTranscripts s) \<le> 12"
    using Cons.prems(5) by simp
  have d: "distinct (recentTranscripts s)"
    using Cons.prems(3) by simp
  have rec: "recentTranscripts s' = recentTranscripts s @ [t]"
    using handle_inserts [OF acc Cons.prems(2) d Cons.prems(4), of e] small
    by (simp add: s'_def clean)
  have lst: "lastProcessedTranscript s' = t" and sid: "currentSessionId s' = currentSessionId s"
    using handle_last [OF acc Cons.prems(2), of e] by (simp_all add: s'_def clean)
  have act: "active s'"
    using Cons.prems(1) by (simp add: s'_def handle_active)
  have tne: "t \<noteq> []" using clean by auto
  have "recentTranscripts (handleAll (map (\<lambda>t. (e, Some t)) ts) s') = recentTranscripts s' @ ts
         \<and> active (handleAll (map (\<lambda>t. (e, Some t)) ts) s')
         \<and> currentSessionId (handleAll (map (\<lambda>t. (e, Some t)) ts) s') = currentSessionId s'
         \<and> lastProcessedTranscript (handleAll (map (\<lambda>t. (e, Some t)) ts) s') =
             (if ts = [] then lastProcessedTranscript s' else last ts)"
  proof (rule Cons.IH)
    show "active s'" by (rule act)
    show "\<not> falsy (currentSessionId s')" using Cons.prems(2) by (simp add: sid)
    show "distinct (recentTranscripts s' @ ts)" using Cons.prems(3) by (simp add: rec)
    show "[] \<notin> set (recentTranscripts s')" using Cons.prems(4) tne by (simp add: rec)
    show "length (recentTranscripts s') + length ts \<le> 13" using Cons.prems(5) by (simp add: rec)
    show "\<forall>t \<in> set ts. cleanTranscript (Some t) = t \<and> 4 \<le> length t" using Cons.prems(6) by simp
    show "ts \<noteq> [] \<longrightarrow> lastProcessedTranscript s' \<notin> set ts" using Cons.prems(3) by (simp add: lst)
    show "getSystemPrompt e = None" by (rule Cons.prems(8))
  qed
  then show ?case
    by (simp add: s'_def [symmetric] rec lst sid)
qed

lemma thirteen_clean:
  "\<forall>t \<in> set thirteenTranscripts. cleanTranscript (Some t) = t \<and> 4 \<le> length t"
  by (simp add: thirteenTranscripts_def cleanTranscript_def trim_def isWhiteSpace_def)

lemma thirteen_distinct: "distinct thirteenTranscripts" "length thirteenTranscripts = 13"
  by (simp_all add: thirteenTranscripts_def)

lemma activeSession_session: "\<not> falsy (currentSessionId activeSession)"
  by (simp add: activeSession_fields falsy_def)

lemma thirteen_run:
  "recentTranscripts (handleAll thirteenSubmissions activeSession) = thirteenTranscripts
   \<and> active (handleAll thirteenSubmissions activeSession)
   \<and> currentSessionId (handleAll thirteenSubmissions activeSession) = currentSessionId activeSession
   \<and> lastProcessedTranscript (handleAll thirteenSubmissions activeSession) = ''mike''"
proof -
  have "getSystemPrompt unboundPrompt = None"
    by (simp add: unboundPrompt_def)
  moreover have "thirteenTranscripts \<noteq> [] \<longrightarrow>
                 lastProcessedTranscript activeSession \<notin> set thirteenTranscripts"
    by (simp add: activeSession_fields thirteenTranscripts_def)
  moreover have "last thirteenTranscripts = ''mike''" "thirteenTranscripts \<noteq> []"
    by (simp_all add: thirteenTranscripts_def)
  ultimately show ?thesis
    using handleAll_fills [of activeSession thirteenTranscripts unboundPrompt]
      thirteen_clean thirteen_distinct activeSession_session
    by (simp add: activeSession_fields thirteenSubmissions_def)
qed


text \<open>
  C4. A final transcript whose cleaned form equals the last processed transcript, or is in
  the window of recent transcripts, is dropped before any effect: the handler returns the
  state it was given, so no turn is appended, no message is sent, the reply generator is not
  called and the de-duplication state is unchanged. Hence, in a session that has an id, the
  same final transcript submitted a second time changes nothing: only the first submission
  can append a turn and trigger a response.
\<close>

theorem C4_duplicates_dropped:
  "(cleanTranscript raw = lastProcessedTranscript s \<or> cleanTranscript raw \<in> set (recentTranscripts s)
      \<longrightarrow> handleCartesiaTranscript e raw s = s)
   \<and> (\<not> falsy (currentSessionId s)
      \<longrightarrow> handleCartesiaTranscript e' raw (handleCartesiaTranscript e raw s) =
          handleCartesiaTranscript e raw s)"
proof (intro conjI impI)
  assume "cleanTranscript raw = lastProcessedTranscript s \<or> cleanTranscript raw \<in> set (recentTranscripts s)"
  then have "\<not> accepted raw s" by (auto simp: accepted_def)
  then show "handleCartesiaTranscript e raw s = s" by (rule handle_dropped)
next
  assume session: "\<not> falsy (currentSessionId s)"
  show "handleCartesiaTranscript e' raw (handleCartesiaTranscript e raw s) =
        handleCartesiaTranscript e raw s"
  proof (cases "accepted raw s")
    case False
    then show ?thesis by (simp add: handle_dropped)
  next
    case True
    then have "\<not> accepted raw (handleCartesiaTranscript e raw s)"
      using session by (simp add: accepted_def handle_last)
    then show ?thesis by (rule handle_dropped)
  qed
qed

theorem C4_duplicates_dropped_witness:
  "handleCartesiaTranscript unboundPrompt (Some ''  same   text '')
     (handleCartesiaTranscript unboundPrompt (Some ''same text'') activeSession) =
   handleCartesiaTranscript unboundPrompt (Some ''same text'') activeSession
   \<and> handleCartesiaTranscript unboundPrompt (Some ''same text'')
     (handleCartesiaTranscript unboundPrompt (Some ''same text'') activeSession) =
   handleCartesiaTranscript unboundPrompt (Some ''same text'') activeSession
   \<and> length (conversationHistory
       (handleCartesiaTranscript unboundPrompt (Some ''same text'') activeSession)) = 1"
proof -
  define s1 where "s1 = handleCartesiaTranscript unboundPrompt (Some ''same text'') activeSession"
  have c1: "cleanTranscript (Some ''same text'') = ''same text''"
    and c2: "cleanTranscript (Some ''  same   text '') = ''same text''"
    by (simp_all add: cleanTranscript_def trim_def isWhiteSpace_def)
  have acc: "accepted (Some ''same text'') activeSession"
    by (simp add: accepted_def activeSession_fields c1)
  have last1: "lastProcessedTranscript s1 = ''same text''"
    using handle_last(1) [OF acc activeSession_session, of unboundPrompt] by (simp add: s1_def c1)
  have unb: "getSystemPrompt unboundPrompt = None"
    by (simp add: unboundPrompt_def)
  have hist: "length (conversationHistory s1) = 1"
    using acc activeSession_session
    by (simp add: s1_def handle_accepted respond_unbound [OF unb] save_existing activeSession_fields)
  have "handleCartesiaTranscript unboundPrompt (Some ''  same   text '') s1 = s1"
    using C4_duplicates_dropped [of "Some ''  same   text ''" s1 unboundPrompt unboundPrompt] last1
    by (simp add: c2)
  moreover have "handleCartesiaTranscript unboundPrompt (Some ''same text'') s1 = s1"
    using C4_duplicates_dropped [of "Some ''same text''" activeSession unboundPrompt unboundPrompt]
      activeSession_session
    by (simp add: s1_def)
  ultimately show ?thesis
    using hist by (simp add: s1_def)
qed

text \<open>
  C5, as stated, fails: after thirteen distinct final transcripts the window holds thirteen
  entries, the first of them still present.
\<close>

theorem C5_window_holds_thirteen:
  "length (recentTranscripts (handleAll thirteenSubmissions activeSession)) = 13
   \<and> hd (recentTranscripts (handleAll thirteenSubmissions activeSession)) = ''alfa''"
  by (simp add: thirteen_run thirteen_distinct) (simp add: thirteenTranscripts_def)


text \<open>
  C5, amended. The eviction test \<^verbatim>\<open>recentTranscripts.size > 12\<close> runs before the insertion,
  so the window holds at most 13 entries after any sequence of submissions (its entries
  stay distinct and non-empty); an accepted transcript that finds more than 12 entries, that
  is 13, evicts the oldest one and is appended at the end (first in, first out), and one that
  finds at most 12 is appended without eviction.
\<close>

theorem C5_window_bound:
  "(length (recentTranscripts s) \<le> 13 \<and> distinct (recentTranscripts s)
      \<and> [] \<notin> set (recentTranscripts s)
    \<longrightarrow> length (recentTranscripts (handleAll subs s)) \<le> 13
        \<and> distinct (recentTranscripts (handleAll subs s))
        \<and> [] \<notin> set (recentTranscripts (handleAll subs s)))
   \<and> (accepted raw s \<and> \<not> falsy (currentSessionId s) \<and> distinct (recentTranscripts s)
      \<and> [] \<notin> set (recentTranscripts s)
    \<longrightarrow> recentTranscripts (handleCartesiaTranscript e raw s) =
          (if 12 < length (recentTranscripts s) then tl (recentTranscripts s)
           else recentTranscripts s) @ [cleanTranscript raw])"
  using handleAll_windowOk [of s subs] handle_inserts [of raw s e]
  by (simp add: windowOk_def)


theorem C5_window_bound_witness:
  "length (recentTranscripts
             (handleAll (thirteenSubmissions @ [(unboundPrompt, Some ''november'')]) activeSession))
     \<le> 13
   \<and> recentTranscripts
       (handleCartesiaTranscript unboundPrompt (Some ''november'')
          (handleAll thirteenSubmissions activeSession)) =
     [''bravo'', ''charlie'', ''delta'', ''echo'', ''foxtrot'', ''golf'', ''hotel'', ''india'',
      ''juliett'', ''kilo'', ''lima'', ''mike'', ''november'']"
proof -
  define s13 where "s13 = handleAll thirteenSubmissions activeSession"
  have r13: "recentTranscripts s13 = thirteenTranscripts"
    and a13: "active s13" and l13: "lastProcessedTranscript s13 = ''mike''"
    and i13: "\<not> falsy (currentSessionId s13)"
    using thirteen_run activeSession_session by (simp_all add: s13_def)
  have nov: "cleanTranscript (Some ''november'') = ''november''"
    by (simp add: cleanTranscript_def trim_def isWhiteSpace_def)
  have acc: "accepted (Some ''november'') s13"
    by (simp add: accepted_def a13 l13 r13 nov) (simp add: thirteenTranscripts_def)
  have ok13: "distinct (recentTranscripts s13)" "[] \<notin> set (recentTranscripts s13)"
    by (simp_all add: r13 thirteen_distinct) (simp add: thirteenTranscripts_def)
  have ok0: "length (recentTranscripts activeSession) \<le> 13 \<and> distinct (recentTranscripts activeSession)
             \<and> [] \<notin> set (recentTranscripts activeSession)"
    by (simp add: activeSession_fields)
  have first: "length (recentTranscripts
             (handleAll (thirteenSubmissions @ [(unboundPrompt, Some ''november'')]) activeSession))
     \<le> 13"
    using C5_window_bound [of activeSession
            "thirteenSubmissions @ [(unboundPrompt, Some ''november'')]"] ok0
    by simp
  have "recentTranscripts (handleCartesiaTranscript unboundPrompt (Some ''november'') s13) =
          tl thirteenTranscripts @ [''november'']"
    using C5_window_bound [of s13 "[]" "Some ''november''" unboundPrompt] acc i13 ok13
    by (simp add: r13 thirteen_distinct nov)
  then show ?thesis
    using first by (simp add: s13_def thirteenTranscripts_def)
qed


section \<open>The manual text entry point\<close>

text \<open>
  C10, as stated, fails for a non-empty string that is all white space: the handler's own
  validation \<^verbatim>\<open>text.trim().length === 0\<close> answers it with
  \<open>Invalid text message\<close>.
\<close>

theorem C10_blank_text_rejected:
  "fst (send_text_message unboundPrompt (Some '' '') activeSession) = Failure ''Invalid text message''"
  by (simp add: send_text_message_def activeSession_fields falsy_def trim_def isWhiteSpace_def)


text \<open>
  C10, amended. In an active session, every string that is not all white space submitted
  through \<^verbatim>\<open>send-text-message\<close> is answered with success, also when
  \<^verbatim>\<open>handleCartesiaTranscript\<close> drops it (cleaned length under 4, equal to the last processed
  transcript, or in the window of recent transcripts) and the state is left as it was; the
  result does not tell a processed submission from a dropped one.
\<close>

theorem C10_manual_text_success:
  "active s \<and> trim text \<noteq> [] \<longrightarrow>
     fst (send_text_message e (Some text) s) = Success
     \<and> (length (cleanTranscript (Some text)) < 4
          \<or> cleanTranscript (Some text) = lastProcessedTranscript s
          \<or> cleanTranscript (Some text) \<in> set (recentTranscripts s)
        \<longrightarrow> snd (send_text_message e (Some text) s) = s)"
proof (intro impI conjI)
  assume a: "active s \<and> trim text \<noteq> []"
  then have "text \<noteq> []" by (auto simp: trim_def)
  with a show "fst (send_text_message e (Some text) s) = Success"
    by (simp add: send_text_message_def falsy_def)
  assume "length (cleanTranscript (Some text)) < 4
          \<or> cleanTranscript (Some text) = lastProcessedTranscript s
          \<or> cleanTranscript (Some text) \<in> set (recentTranscripts s)"
  then have "\<not> accepted (Some text) s" by (auto simp: accepted_def)
  then have "handleCartesiaTranscript e (Some text) s = s" by (rule handle_dropped)
  with a \<open>text \<noteq> []\<close> show "snd (send_text_message e (Some text) s) = s"
    by (simp add: send_text_message_def falsy_def)
qed


theorem C10_manual_text_success_witness:
  "send_text_message unboundPrompt (Some ''hi'') activeSession = (Success, activeSession)
   \<and> fst (send_text_message unboundPrompt (Some ''hello there'') activeSession) = Success
   \<and> length (conversationHistory
               (snd (send_text_message unboundPrompt (Some ''hello there'') activeSession))) = 1"
proof -
  have t1: "trim ''hi'' \<noteq> []" "trim ''hello there'' \<noteq> []"
    by (simp_all add: trim_def isWhiteSpace_def)
  have c1: "cleanTranscript (Some ''hi'') = ''hi''"
    and c2: "cleanTranscript (Some ''hello there'') = ''hello there''"
    by (simp_all add: cleanTranscript_def trim_def isWhiteSpace_def)
  have acc: "accepted (Some ''hello there'') activeSession"
    by (simp add: accepted_def activeSession_fields c2)
  have unb: "getSystemPrompt unboundPrompt = None"
    by (simp add: unboundPrompt_def)
  have hist: "length (conversationHistory
                (handleCartesiaTranscript unboundPrompt (Some ''hello there'') activeSession)) = 1"
    using acc activeSession_session
    by (simp add: handle_accepted respond_unbound [OF unb] save_existing activeSession_fields)
  have "fst (send_text_message unboundPrompt (Some ''hi'') activeSession) = Success
        \<and> snd (send_text_message unboundPrompt (Some ''hi'') activeSession) = activeSession"
    using C10_manual_text_success [of activeSession "''hi''" unboundPrompt] t1
    by (simp add: activeSession_fields c1)
  moreover have "fst (send_text_message unboundPrompt (Some ''hello there'') activeSession) = Success"
    using C10_manual_text_success [of activeSession "''hello there''" unboundPrompt] t1
    by (simp add: activeSession_fields)
  moreover have "snd (send_text_message unboundPrompt (Some ''hello there'') activeSession) =
                 handleCartesiaTranscript unboundPrompt (Some ''hello there'') activeSession"
    by (simp add: send_text_message_def activeSession_fields falsy_def t1)
  ultimately show ?thesis
    using hist by (simp add: prod_eq_iff)
qed

section \<open>Reply generation with a reply\<close>

















section \<open>Short transcripts\<close>


section \<open>Down-mixing the extreme sample pairs\<close>

lemma stereo_extremes:
  "readInt16LE [0xFF, 0x7F, 0x00, 0x80] 0 = Inr 32767"
  "readInt16LE [0xFF, 0x7F, 0x00, 0x80] 2 = Inr (- 32768)"
  "readInt16LE [0xFF, 0x7F] 0 = Inr 32767"
  "readInt16LE [0x00, 0x00] 0 = Inr 0"
  "readInt16LE [0xFF, 0x7F, 0xFF, 0x7F] 2 = Inr 32767"
  by (simp_all add: readInt16LE_def word_cat_eq)


text \<open>
  C2 does not hold of this \<^verbatim>\<open>convertStereoToMono\<close>: it copies the left sample and never reads
  the right one. Evaluated on the stereo pair \<open>(32767, -32768)\<close>, whose mean is \<open>-0.5\<close>
  and rounds to \<open>0\<close>: the mono sample written is \<open>32767\<close>.
\<close>

theorem C2_left_channel_only:
  "readInt16LE [0xFF, 0x7F, 0x00, 0x80] 0 = Inr 32767
   \<and> readInt16LE [0xFF, 0x7F, 0x00, 0x80] 2 = Inr (- 32768)
   \<and> convertStereoToMono [0xFF, 0x7F, 0x00, 0x80] = Inr [0xFF, 0x7F]
   \<and> readInt16LE [0xFF, 0x7F] 0 = Inr 32767"
proof -
  have "length [0xFF, 0x7F, 0x00, 0x80 :: byte] mod 4 = 0" by simp
  then have "convertStereoToMono [0xFF, 0x7F, 0x00, 0x80] = Inr (leftChannel [0xFF, 0x7F, 0x00, 0x80])"
    by (rule convertStereoToMono_left)
  then show ?thesis by (simp add: stereo_extremes)
qed


text \<open>The averaging down-mix of the second copy gives the values the specification names.\<close>

lemma averaging_opposite: "convertStereoToMono_averaging [0xFF, 0x7F, 0x00, 0x80] = Inr [0x00, 0x00]"
  by code_simp

lemma averaging_maximum: "convertStereoToMono_averaging [0xFF, 0x7F, 0xFF, 0x7F] = Inr [0xFF, 0x7F]"
  by code_simp


section \<open>The synthesis queue\<close>

lemma queue_short:
  "length (trim t) < 12 \<Longrightarrow> queueTtsSynthesis (Some t) queue = queue"
  by (simp add: queueTtsSynthesis_def)

lemma queue_none: "queueTtsSynthesis None queue = queue"
  by (simp add: queueTtsSynthesis_def)

lemma queue_long:
  "12 \<le> length (trim t) \<Longrightarrow>
     queueTtsSynthesis (Some t) queue = ThenSynthesize (Catch queue) (trim t)"
  by (simp add: queueTtsSynthesis_def)

lemma starts_sequentially:
  "length (filter isStart (sequentially synth k ts)) = length ts"
  by (induction ts arbitrary: k) simp_all

lemma settle_enqueueAll:
  "fst (settle synth (enqueueAll texts queue)) =
     fst (settle synth queue) @
     sequentially synth (length (filter isStart (fst (settle synth queue)))) (tasksOf texts)"
proof (induction texts arbitrary: queue)
  case Nil
  show ?case by simp
next
  case (Cons x rest)
  show ?case
  proof (cases x)
    case None
    then show ?thesis using Cons.IH [of queue] by (simp add: queue_none)
  next
    case (Some t)
    show ?thesis
    proof (cases "length (trim t) < 12")
      case True
      then show ?thesis using Cons.IH [of queue] by (simp add: Some queue_short)
    next
      case False
      then have q: "queueTtsSynthesis (Some t) queue = ThenSynthesize (Catch queue) (trim t)"
        by (simp add: queue_long)
      have "fst (settle synth (ThenSynthesize (Catch queue) (trim t))) =
              fst (settle synth queue) @
              [SynthesisStarted (trim t),
               SynthesisEnded (trim t) (synth (length (filter isStart (fst (settle synth queue)))))]"
        by (simp add: Let_def split: prod.splits)
      then show ?thesis
        using Cons.IH [of "ThenSynthesize (Catch queue) (trim t)"] False
        by (simp add: Some q)
    qed
  qed
qed


text \<open>
  C7. Enqueueing texts on the synthesis queue, starting from \<^verbatim>\<open>Promise.resolve()\<close>, and
  letting the chain settle runs exactly the texts whose trimmed form has at least 12
  characters, each once, in enqueue order and strictly one after the other: every task
  starts only after the previous task has ended, whether its synthesis resolved or rejected,
  so a failure in one task never keeps a later task from running. Enqueueing a text whose
  trimmed form is shorter than 12 characters, or a non-string, leaves the queue as it is.
\<close>

theorem C7_synthesis_sequential:
  "fst (settle synth (enqueueAll texts Promise_resolve)) = sequentially synth 0 (tasksOf texts)
   \<and> (length (trim t) < 12 \<longrightarrow> queueTtsSynthesis (Some t) queue = queue)
   \<and> queueTtsSynthesis None queue = queue"
  using settle_enqueueAll [of synth texts Promise_resolve]
  by (simp add: queue_short queue_none)



theorem C7_synthesis_sequential_witness:
  "fst (settle firstCallFails
          (enqueueAll [Some ''This is the first reply.'', Some ''too short'',
                       Some ''  And this is the second one.  ''] Promise_resolve)) =
     [SynthesisStarted ''This is the first reply.'',
      SynthesisEnded ''This is the first reply.'' RejectsWithNullish,
      SynthesisStarted ''And this is the second one.'',
      SynthesisEnded ''And this is the second one.'' Resolves]
   \<and> queueTtsSynthesis (Some ''too short'') Promise_resolve = Promise_resolve"
proof -
  have t: "trim ''This is the first reply.'' = ''This is the first reply.''"
    "trim ''too short'' = ''too short''"
    "trim ''  And this is the second one.  '' = ''And this is the second one.''"
    by (simp_all add: trim_def isWhiteSpace_def)
  show ?thesis
    using C7_synthesis_sequential [of firstCallFails
            "[Some ''This is the first reply.'', Some ''too short'',
              Some ''  And this is the second one.  '']" "''too short''" Promise_resolve]
    by (simp add: t firstCallFails_def)
qed

section \<open>Resubmission before the session has an id\<close>

text \<open>Why resubmission needs a session id: while \<^verbatim>\<open>currentSessionId\<close> is still
  \<^verbatim>\<open>null\<close>, the first save initialises the session and clears the de-duplication state,
  so the same transcript submitted again is accepted again and a second turn is appended.\<close>

lemma resubmission_without_session:
  "map transcription
     (conversationHistory
        (handleCartesiaTranscript unboundPrompt (Some ''same text'')
           (handleCartesiaTranscript unboundPrompt (Some ''same text'')
              (loadedState\<lparr>active := True\<rparr>)))) =
   [''same text'', ''same text'']"
proof -
  define s0 where "s0 = loadedState\<lparr>active := True\<rparr>"
  define s1 where "s1 = handleCartesiaTranscript unboundPrompt (Some ''same text'') s0"
  have c: "cleanTranscript (Some ''same text'') = ''same text''" "trim ''same text'' = ''same text''"
    by (simp_all add: cleanTranscript_def trim_def isWhiteSpace_def)
  have unb: "getSystemPrompt unboundPrompt = None"
    by (simp add: unboundPrompt_def)
  have acc0: "accepted (Some ''same text'') s0"
    by (simp add: accepted_def s0_def loadedState_def c)
  have fresh0: "falsy (currentSessionId s0)"
    by (simp add: s0_def loadedState_def falsy_def)
  have s1_eq: "s1 = saveConversationTurn ''same text'' []
                 (s0\<lparr>recentTranscripts := Set_add ''same text'' (evictOldest (recentTranscripts s0)),
                     lastProcessedTranscript := ''same text''\<rparr>)"
    using acc0 by (simp add: s1_def handle_accepted respond_unbound [OF unb] c)
  have id1: "\<not> falsy (currentSessionId s1)"
    by (simp add: s1_eq save_session)
  have act1: "active s1"
    by (simp add: s1_eq save_kept s0_def)
  have f1: "lastProcessedTranscript s1 = []" "recentTranscripts s1 = []"
    "map transcription (conversationHistory s1) = [''same text'']"
    using fresh0 by (simp_all add: s1_eq save_fresh c)
  have acc1: "accepted (Some ''same text'') s1"
    by (simp add: accepted_def f1 act1 c)
  have "map transcription (conversationHistory (handleCartesiaTranscript unboundPrompt (Some ''same text'') s1)) =
        [''same text'', ''same text'']"
    using acc1 f1 id1 by (simp add: handle_accepted respond_unbound [OF unb] c save_existing)
  then show ?thesis by (simp add: s1_def s0_def)
qed

end
